theory Spec2Isabelle
  imports Complex_Main
begin

section \<open>Python values, errors and outbound calls\<close>

text \<open>
  The development embeds the class \<open>LiveAdvance\<close> of \<open>live_advance.py\<close>. Strings are byte
  strings (the labels of the program are ASCII, so \<open>encode('utf-8')\<close> is the identity on
  them); the timestamps returned by \<open>time.time()\<close> are read as real numbers; \<open>print\<close> is
  left out. A handler returns the object after the call, the calls it made on its
  collaborators (the Cortex client, the log file, the socket) in the order it made them,
  and the exception that left the handler, if any.
\<close>

datatype py_error = ValueError | AttributeError | TypeError | OSError

datatype pyval =
    PNone
  | PStr string
  | PNum real
  | PList "pyval list"
  | PDict "(string \<times> pyval) list"

text \<open>Truth value of a Python object, as \<open>if data:\<close> tests it.\<close>

fun truthy :: "pyval \<Rightarrow> bool" where
  "truthy PNone = False"
| "truthy (PStr s) = (s \<noteq> [])"
| "truthy (PNum x) = (x \<noteq> 0)"
| "truthy (PList xs) = (xs \<noteq> [])"
| "truthy (PDict d) = (d \<noteq> [])"

text \<open>\<open>isinstance(data, list)\<close>.\<close>

fun isinstance_list :: "pyval \<Rightarrow> bool" where
  "isinstance_list (PList xs) = True"
| "isinstance_list v = False"

text \<open>\<open>d.get(key, default)\<close> on a dict.\<close>

definition dict_get :: "(string \<times> pyval) list \<Rightarrow> string \<Rightarrow> pyval \<Rightarrow> pyval" where
  "dict_get d k dflt = (case map_of d k of Some v \<Rightarrow> v | None \<Rightarrow> dflt)"

text \<open>\<open>str.lower\<close> on ASCII text; a value that is not a string has no \<open>lower\<close> attribute.\<close>

definition lower_char :: "char \<Rightarrow> char" where
  "lower_char c =
     (case map_of (zip ''ABCDEFGHIJKLMNOPQRSTUVWXYZ'' ''abcdefghijklmnopqrstuvwxyz'') c of
        Some l \<Rightarrow> l
      | None \<Rightarrow> c)"

fun str_lower :: "pyval \<Rightarrow> py_error + string" where
  "str_lower (PStr s) = Inr (map lower_char s)"
| "str_lower v = Inl AttributeError"

datatype call =
    Cortex_set_wanted_profile string
  | Cortex_set_wanted_headset string
  | Cortex_open
  | Cortex_get_current_profile
  | Cortex_setup_profile string string
  | Cortex_set_mental_command_action_sensitivity string "int list"
  | File_append string string
  | Socket_sendall string nat string

section \<open>The object and its environment\<close>

text \<open>
  \<open>profile_name\<close> is \<open>None\<close> while the attribute has not been assigned (\<open>__init__\<close> does not
  assign it; \<open>start\<close> does): reading it then raises \<open>AttributeError\<close>.
  \<open>command_history\<close> is the deque, oldest label first.
\<close>

record live_advance =
  profile_name :: "string option"
  profile_lists :: "string list option"
  command_history :: "string list"
  last_print_time :: real

record outcome =
  obj :: live_advance
  calls :: "call list"
  raised :: "py_error option"

text \<open>
  What a call of \<open>on_new_com_data\<close> finds outside the object: the clock, and whether the
  file append and the socket delivery go through or raise.
\<close>

record io_env =
  time_time :: real
  log_ok :: bool
  sock_ok :: bool

definition maxlen :: nat where
  "maxlen = 40"

definition target_words :: "string list" where
  "target_words = [''drop'', ''right'', ''left'', ''lift'', ''neutral'']"

text \<open>The object as \<open>__init__\<close> leaves it.\<close>

definition init :: live_advance where
  "init = \<lparr>profile_name = None, profile_lists = None, command_history = [], last_print_time = 0\<rparr>"

text \<open>\<open>deque.append\<close> with a bound: append on the right, then drop from the left if too long.\<close>

definition deque_append :: "nat \<Rightarrow> 'a list \<Rightarrow> 'a \<Rightarrow> 'a list" where
  "deque_append n d x = (let d' = d @ [x] in if length d' > n then tl d' else d')"

section \<open>The vote\<close>

text \<open>
  \<open>{word: self.command_history.count(word) for word in self.target_words}\<close>: the dict keeps
  its keys in insertion order, so it is the list of its items in that order.
\<close>

definition counts_of :: "string list \<Rightarrow> string list \<Rightarrow> (string \<times> nat) list" where
  "counts_of words history = map (\<lambda>word. (word, count_list history word)) words"

text \<open>
  \<open>max(counts, key=counts.get)\<close> walks the keys in order and keeps the running best, which
  a later key replaces only when its value is strictly greater; \<open>max\<close> of nothing raises
  \<open>ValueError\<close>. The result is paired with its value, which is what \<open>counts[majority_word]\<close>
  reads.
\<close>

fun max_from :: "(string \<times> nat) \<Rightarrow> (string \<times> nat) list \<Rightarrow> (string \<times> nat)" where
  "max_from best [] = best"
| "max_from best (kv # rest) = max_from (if snd kv > snd best then kv else best) rest"

fun py_max :: "(string \<times> nat) list \<Rightarrow> py_error + (string \<times> nat)" where
  "py_max [] = Inl ValueError"
| "py_max (kv # rest) = Inr (max_from kv rest)"

section \<open>Log sink and socket forwarder\<close>

definition guardar_datos_en_csv :: "io_env \<Rightarrow> string \<Rightarrow> string \<Rightarrow> call \<times> py_error option" where
  "guardar_datos_en_csv env datos nombre_archivo =
     (File_append nombre_archivo (datos @ [CHR 0x0A]),
      if log_ok env then None else Some OSError)"

definition envioporsocket :: "io_env \<Rightarrow> string \<Rightarrow> call \<times> py_error option" where
  "envioporsocket env comando =
     (Socket_sendall ''192.168.1.124'' 5000 comando,
      if sock_ok env then None else Some OSError)"

definition datos_txt :: string where
  "datos_txt = ''C:/Users/James/Desktop/cortex-v2-example-master/datos.txt''"

section \<open>The sample handler\<close>

definition on_new_com_data :: "io_env \<Rightarrow> pyval \<Rightarrow> live_advance \<Rightarrow> outcome" where
  "on_new_com_data env data self =
     (if \<not> truthy data then \<lparr>obj = self, calls = [], raised = None\<rparr>
      else case data of
        PDict d \<Rightarrow>
          (case str_lower (dict_get d ''action'' (PStr [])) of
             Inl e \<Rightarrow> \<lparr>obj = self, calls = [], raised = Some e\<rparr>
           | Inr command \<Rightarrow>
               (let self1 = self\<lparr>command_history :=
                                   deque_append maxlen (command_history self) command\<rparr>;
                    current_time = time_time env
                in if current_time - last_print_time self1 \<ge> 8 then
                     (case py_max (counts_of target_words (command_history self1)) of
                        Inl e \<Rightarrow> \<lparr>obj = self1, calls = [], raised = Some e\<rparr>
                      | Inr (majority_word, majority_count) \<Rightarrow>
                          if majority_count \<ge> 20 then
                            (case guardar_datos_en_csv env majority_word datos_txt of
                               (c1, Some e) \<Rightarrow> \<lparr>obj = self1, calls = [c1], raised = Some e\<rparr>
                             | (c1, None) \<Rightarrow>
                                 (case envioporsocket env majority_word of
                                    (c2, Some e) \<Rightarrow>
                                      \<lparr>obj = self1, calls = [c1, c2], raised = Some e\<rparr>
                                  | (c2, None) \<Rightarrow>
                                      \<lparr>obj = self1\<lparr>last_print_time := current_time\<rparr>,
                                       calls = [c1, c2], raised = None\<rparr>))
                          else \<lparr>obj = self1, calls = [], raised = None\<rparr>)
                   else \<lparr>obj = self1, calls = [], raised = None\<rparr>))
      | _ \<Rightarrow> \<lparr>obj = self, calls = [], raised = Some AttributeError\<rparr>)"

section \<open>The lifecycle handlers\<close>

text \<open>\<open>set_sensitivity\<close> and \<open>save_profile\<close> pass their arguments on to the Cortex client.\<close>

definition set_sensitivity :: "string \<Rightarrow> int list \<Rightarrow> call list" where
  "set_sensitivity name values = [Cortex_set_mental_command_action_sensitivity name values]"

definition save_profile :: "string \<Rightarrow> call list" where
  "save_profile name = [Cortex_setup_profile name ''save'']"

definition start :: "string \<Rightarrow> string \<Rightarrow> live_advance \<Rightarrow> outcome" where
  "start name headsetId self =
     (if name = [] then \<lparr>obj = self, calls = [], raised = Some ValueError\<rparr>
      else \<lparr>obj = self\<lparr>profile_name := Some name\<rparr>,
            calls = [Cortex_set_wanted_profile name]
                    @ (if headsetId \<noteq> [] then [Cortex_set_wanted_headset headsetId] else [])
                    @ [Cortex_open],
            raised = None\<rparr>)"

text \<open>
  \<open>on_query_profile_done\<close> stores the payload first, then reads \<open>self.profile_name\<close> and
  tests membership; \<open>x in None\<close> raises \<open>TypeError\<close>.
\<close>

definition on_query_profile_done :: "string list option \<Rightarrow> live_advance \<Rightarrow> outcome" where
  "on_query_profile_done data self =
     (let self1 = self\<lparr>profile_lists := data\<rparr>
      in case profile_name self1 of
           None \<Rightarrow> \<lparr>obj = self1, calls = [], raised = Some AttributeError\<rparr>
         | Some name \<Rightarrow>
             (case profile_lists self1 of
                None \<Rightarrow> \<lparr>obj = self1, calls = [], raised = Some TypeError\<rparr>
              | Some names \<Rightarrow>
                  if name \<in> set names
                  then \<lparr>obj = self1, calls = [Cortex_get_current_profile], raised = None\<rparr>
                  else \<lparr>obj = self1, calls = [Cortex_setup_profile name ''create''],
                        raised = None\<rparr>))"

definition on_mc_action_sensitivity_done :: "pyval \<Rightarrow> live_advance \<Rightarrow> outcome" where
  "on_mc_action_sensitivity_done data self =
     (if isinstance_list data then
        (case profile_name self of
           None \<Rightarrow> \<lparr>obj = self, calls = [], raised = Some AttributeError\<rparr>
         | Some name \<Rightarrow>
             \<lparr>obj = self, calls = set_sensitivity name [5, 5, 7, 7], raised = None\<rparr>)
      else
        (case profile_name self of
           None \<Rightarrow> \<lparr>obj = self, calls = [], raised = Some AttributeError\<rparr>
         | Some name \<Rightarrow> \<lparr>obj = self, calls = save_profile name, raised = None\<rparr>))"

section \<open>Runs of the sample handler\<close>

text \<open>
  The object outlives an exception that leaves a handler, and the event source goes on
  calling the handler with it. \<open>feed\<close> is the object after a list of sample events, each
  with the environment it meets; \<open>run\<close> lists the outcomes of the same calls. A run that
  stops at the first exception is a prefix of one of these.
\<close>

fun feed :: "live_advance \<Rightarrow> (io_env \<times> pyval) list \<Rightarrow> live_advance" where
  "feed self [] = self"
| "feed self ((env, data) # evs) = feed (obj (on_new_com_data env data self)) evs"

fun run :: "live_advance \<Rightarrow> (io_env \<times> pyval) list \<Rightarrow> outcome list" where
  "run self [] = []"
| "run self ((env, data) # evs) =
     on_new_com_data env data self # run (obj (on_new_com_data env data self)) evs"

text \<open>
  The label that lines 250 to 254 append to the window for a payload, if any: none for a
  falsy payload, and none when reading the label raises.
\<close>

definition appended :: "pyval \<Rightarrow> string list" where
  "appended data =
     (if \<not> truthy data then []
      else case data of
        PDict d \<Rightarrow>
          (case str_lower (dict_get d ''action'' (PStr [])) of
             Inl e \<Rightarrow> []
           | Inr command \<Rightarrow> [command])
      | _ \<Rightarrow> [])"

definition labels :: "(io_env \<times> pyval) list \<Rightarrow> string list" where
  "labels evs = concat (map (\<lambda>(env, data). appended data) evs)"

text \<open>An outcome delivered its decision when calls were made and none of them raised.\<close>

definition forwarded :: "outcome \<Rightarrow> bool" where
  "forwarded out = (raised out = None \<and> calls out \<noteq> [])"

section \<open>The vote and the threshold, as the specification words them\<close>

text \<open>
  The specification's vote: the first label, in the order of the vocabulary, whose count
  in the window is not exceeded by any label of the vocabulary; and the maximum count
  over the vocabulary.
\<close>

definition spec_vote :: "string list \<Rightarrow> string list \<Rightarrow> string option" where
  "spec_vote words window =
     find (\<lambda>w. \<forall>v \<in> set words. count_list window v \<le> count_list window w) words"

definition max_count :: "string list \<Rightarrow> string list \<Rightarrow> nat" where
  "max_count words window = Max (set (map (count_list window) words))"

section \<open>Facts about the vote\<close>

lemma max_from_mem: "max_from b xs \<in> set (b # xs)"
  by (induction xs arbitrary: b) auto

lemma max_from_ge: "u \<in> set (b # xs) \<Longrightarrow> snd u \<le> snd (max_from b xs)"
proof (induction xs arbitrary: b u)
  case Nil
  then show ?case by simp
next
  case (Cons x xs)
  let ?b' = "if snd b < snd x then x else b"
  have 1: "snd ?b' \<le> snd (max_from ?b' xs)"
    using Cons.IH [of ?b' ?b'] by simp
  have 2: "\<And>v. v \<in> set xs \<Longrightarrow> snd v \<le> snd (max_from ?b' xs)"
    using Cons.IH [of _ ?b'] by simp
  show ?case
  proof (cases "u \<in> set xs")
    case True
    then show ?thesis using 2 by simp
  next
    case False
    then have "u = b \<or> u = x" using Cons.prems by simp
    then have "snd u \<le> snd ?b'" by auto
    then show ?thesis using 1 by simp
  qed
qed

lemma max_from_first:
  "find (\<lambda>kv. \<forall>u \<in> set (b # xs). snd u \<le> snd kv) (b # xs) = Some (max_from b xs)"
proof (induction xs arbitrary: b)
  case Nil
  then show ?case by simp
next
  case (Cons x xs)
  let ?b' = "if snd b < snd x then x else b"
  have eq: "(\<lambda>kv. \<forall>u \<in> set (b # x # xs). snd u \<le> snd kv)
          = (\<lambda>kv. \<forall>u \<in> set (?b' # xs). snd u \<le> snd kv)"
    by (auto simp: fun_eq_iff)
  show ?case
    using Cons.IH [of ?b'] unfolding eq
    by (auto split: if_splits)
qed

lemma find_map_conv: "find P (map g xs) = map_option g (find (P \<circ> g) xs)"
  by (induction xs) auto

lemma vote_first_max:
  assumes "words \<noteq> []"
  shows "\<exists>w. spec_vote words h = Some w \<and> py_max (counts_of words h) = Inr (w, count_list h w)"
proof -
  obtain a ws where words: "words = a # ws"
    using assms by (cases words) auto
  let ?g = "\<lambda>word. (word, count_list h word)"
  have "find (\<lambda>kv. \<forall>u \<in> set (map ?g words). snd u \<le> snd kv) (map ?g words)
          = Some (max_from (?g a) (map ?g ws))"
    using max_from_first [of "?g a" "map ?g ws"] by (simp add: words)
  then have "map_option ?g (spec_vote words h) = Some (max_from (?g a) (map ?g ws))"
    by (simp add: find_map_conv spec_vote_def comp_def)
  then obtain w where "spec_vote words h = Some w" "?g w = max_from (?g a) (map ?g ws)"
    by auto
  then show ?thesis
    by (simp add: words counts_of_def)
qed

lemma vote_max_count:
  assumes "py_max (counts_of words h) = Inr (w, c)"
  shows "c = max_count words h \<and> w \<in> set words \<and> c = count_list h w"
proof -
  obtain a ws where words: "words = a # ws"
    using assms by (cases words) (auto simp: counts_of_def)
  let ?g = "\<lambda>word. (word, count_list h word)"
  have m: "max_from (?g a) (map ?g ws) = (w, c)"
    using assms by (simp add: words counts_of_def)
  have mem: "(w, c) \<in> set (map ?g words)"
    using max_from_mem [of "?g a" "map ?g ws"] m by (simp add: words)
  have ge: "\<And>v. v \<in> set words \<Longrightarrow> count_list h v \<le> c"
  proof -
    fix v assume "v \<in> set words"
    then have "?g v \<in> set (?g a # map ?g ws)" by (auto simp: words)
    from max_from_ge [OF this] m show "count_list h v \<le> c" by simp
  qed
  from mem have wc: "w \<in> set words" "c = count_list h w" by auto
  have "Max (set (map (count_list h) words)) = c"
    by (rule Max_eqI) (use wc ge in auto)
  then show ?thesis using wc by (simp add: max_count_def)
qed

lemma vote_exists:
  "\<exists>w. spec_vote target_words h = Some w \<and>
       py_max (counts_of target_words h) = Inr (w, max_count target_words h)"
proof -
  have "target_words \<noteq> []" by (simp add: target_words_def)
  from vote_first_max [OF this, of h] obtain w where
    w: "spec_vote target_words h = Some w"
       "py_max (counts_of target_words h) = Inr (w, count_list h w)" by blast
  from vote_max_count [OF w(2)] w show ?thesis by simp
qed

lemma count_list_replicate: "count_list (replicate n x) y = (if x = y then n else 0)"
  by (induction n) auto

section \<open>Facts about the window\<close>

lemma deque_append_length: "length d \<le> n \<Longrightarrow> length (deque_append n d x) \<le> n"
  by (auto simp: deque_append_def Let_def)

lemma deque_append_drop:
  assumes "length d \<le> n"
  shows "deque_append n d x = drop (length (d @ [x]) - n) (d @ [x])"
proof (cases "length d < n")
  case True
  then show ?thesis by (simp add: deque_append_def Let_def)
next
  case False
  with assms have "length d = n" by simp
  then have "length (d @ [x]) - n = Suc 0" by simp
  moreover have "deque_append n d x = tl (d @ [x])"
    using \<open>length d = n\<close> by (simp add: deque_append_def Let_def)
  ultimately show ?thesis by (simp only: drop_Suc drop_0)
qed

lemma foldl_deque_append:
  "length d \<le> n \<Longrightarrow>
     foldl (deque_append n) d xs = drop (length (d @ xs) - n) (d @ xs)"
proof (induction xs arbitrary: d)
  case Nil
  then show ?case by simp
next
  case (Cons x xs)
  have len: "length (deque_append n d x) \<le> n"
    using Cons.prems by (rule deque_append_length)
  have step: "foldl (deque_append n) d (x # xs)
          = drop (length (deque_append n d x @ xs) - n) (deque_append n d x @ xs)"
    using Cons.IH [OF len] by simp
  show ?case
  proof (cases "length d < n")
    case True
    then have "deque_append n d x = d @ [x]"
      by (simp add: deque_append_def Let_def)
    with step show ?thesis by simp
  next
    case False
    with Cons.prems have n: "length d = n" by simp
    then have "deque_append n d x = tl (d @ [x])"
      by (simp add: deque_append_def Let_def)
    then have "deque_append n d x @ xs = tl (d @ x # xs)"
      by (cases d) simp_all
    moreover have "length (tl (d @ x # xs)) - n = length xs"
      using n by simp
    moreover have "length (d @ x # xs) - n = Suc (length xs)"
      using n by simp
    ultimately show ?thesis
      using step by (simp only: drop_Suc)
  qed
qed

section \<open>Facts about one call of the sample handler\<close>

lemma sample_outcome:
  assumes "d \<noteq> []"
    and "str_lower (dict_get d ''action'' (PStr [])) = Inr command"
    and "py_max (counts_of target_words (deque_append maxlen (command_history self) command))
           = Inr (w, c)"
  shows "on_new_com_data env (PDict d) self =
     (if time_time env - last_print_time self \<ge> 8 \<and> 20 \<le> c then
        \<lparr>obj = self\<lparr>command_history := deque_append maxlen (command_history self) command,
                     last_print_time := (if log_ok env \<and> sock_ok env then time_time env
                                         else last_print_time self)\<rparr>,
         calls = File_append datos_txt (w @ [CHR 0x0A])
                 # (if log_ok env then [Socket_sendall ''192.168.1.124'' 5000 w] else []),
         raised = (if log_ok env \<and> sock_ok env then None else Some OSError)\<rparr>
      else \<lparr>obj = self\<lparr>command_history := deque_append maxlen (command_history self) command\<rparr>,
            calls = [], raised = None\<rparr>)"
  using assms
  by (simp add: on_new_com_data_def Let_def guardar_datos_en_csv_def envioporsocket_def)

lemma history_after:
  "command_history (obj (on_new_com_data env data self))
     = foldl (deque_append maxlen) (command_history self) (appended data)"
proof (cases "truthy data")
  case False
  then show ?thesis by (simp add: on_new_com_data_def appended_def)
next
  case True
  show ?thesis
  proof (cases data)
    case (PDict d)
    show ?thesis
    proof (cases "str_lower (dict_get d ''action'' (PStr []))")
      case (Inl e)
      with True PDict show ?thesis by (simp add: on_new_com_data_def appended_def)
    next
      case (Inr command)
      from vote_exists obtain w where
        "py_max (counts_of target_words (deque_append maxlen (command_history self) command))
           = Inr (w, max_count target_words (deque_append maxlen (command_history self) command))"
        by blast
      from sample_outcome [OF _ Inr this, of env] True PDict Inr
      show ?thesis by (simp add: appended_def)
    qed
  qed (use True in \<open>simp_all add: on_new_com_data_def appended_def\<close>)
qed

lemma last_print_time_after:
  "last_print_time (obj (on_new_com_data env data self))
     = (if forwarded (on_new_com_data env data self) then time_time env
        else last_print_time self)"
proof (cases "truthy data")
  case False
  then show ?thesis by (simp add: on_new_com_data_def forwarded_def)
next
  case True
  show ?thesis
  proof (cases data)
    case (PDict d)
    show ?thesis
    proof (cases "str_lower (dict_get d ''action'' (PStr []))")
      case (Inl e)
      with True PDict show ?thesis by (simp add: on_new_com_data_def forwarded_def)
    next
      case (Inr command)
      from vote_exists obtain w where
        "py_max (counts_of target_words (deque_append maxlen (command_history self) command))
           = Inr (w, max_count target_words (deque_append maxlen (command_history self) command))"
        by blast
      from sample_outcome [OF _ Inr this, of env] True PDict Inr
      show ?thesis by (simp add: forwarded_def)
    qed
  qed (use True in \<open>simp_all add: on_new_com_data_def forwarded_def\<close>)
qed

lemma calls_gate:
  "calls (on_new_com_data env data self) \<noteq> [] \<Longrightarrow>
     time_time env - last_print_time self \<ge> 8"
  by (auto simp add: on_new_com_data_def Let_def guardar_datos_en_csv_def envioporsocket_def
      split: if_splits pyval.splits sum.splits prod.splits option.splits)

lemma step_mono:
  "last_print_time self \<le> last_print_time (obj (on_new_com_data env data self))"
proof (cases "forwarded (on_new_com_data env data self)")
  case True
  then have "calls (on_new_com_data env data self) \<noteq> []"
    by (simp add: forwarded_def)
  from calls_gate [OF this] True show ?thesis
    by (simp add: last_print_time_after)
next
  case False
  then show ?thesis by (simp add: last_print_time_after)
qed

section \<open>Facts about runs\<close>

lemma feed_append: "feed self (xs @ ys) = feed (feed self xs) ys"
  by (induction xs arbitrary: self) auto

lemma feed_mono: "last_print_time self \<le> last_print_time (feed self evs)"
proof (induction evs arbitrary: self)
  case Nil
  then show ?case by simp
next
  case (Cons ev evs)
  obtain env data where ev: "ev = (env, data)" by (cases ev)
  have "last_print_time self \<le> last_print_time (obj (on_new_com_data env data self))"
    by (rule step_mono)
  also have "\<dots> \<le> last_print_time (feed (obj (on_new_com_data env data self)) evs)"
    by (rule Cons.IH)
  finally show ?case by (simp add: ev)
qed

lemma run_nth:
  "j < length evs \<Longrightarrow>
     run self evs ! j = on_new_com_data (fst (evs ! j)) (snd (evs ! j)) (feed self (take j evs))"
proof (induction evs arbitrary: self j)
  case Nil
  then show ?case by simp
next
  case (Cons ev evs)
  obtain env data where ev: "ev = (env, data)" by (cases ev)
  show ?case
  proof (cases j)
    case 0
    then show ?thesis by (simp add: ev)
  next
    case (Suc k)
    with Cons.prems have "k < length evs" by simp
    from Cons.IH [OF this] Suc show ?thesis by (simp add: ev)
  qed
qed

lemma feed_history:
  "command_history (feed self evs)
     = foldl (deque_append maxlen) (command_history self) (labels evs)"
proof (induction evs arbitrary: self)
  case Nil
  then show ?case by (simp add: labels_def)
next
  case (Cons ev evs)
  obtain env data where ev: "ev = (env, data)" by (cases ev)
  have "labels (ev # evs) = appended data @ labels evs"
    by (simp add: labels_def ev)
  then show ?case
    using Cons.IH [of "obj (on_new_com_data env data self)"]
    by (simp add: ev history_after)
qed

lemma feed_take_Suc:
  assumes "i < length evs"
  shows "feed self (take (Suc i) evs) = obj (run self evs ! i)"
proof -
  have "take (Suc i) evs = take i evs @ [evs ! i]"
    using assms by (rule take_Suc_conv_app_nth)
  then have "feed self (take (Suc i) evs) = feed (feed self (take i evs)) [evs ! i]"
    by (simp only: feed_append)
  also have "\<dots> = obj (on_new_com_data (fst (evs ! i)) (snd (evs ! i)) (feed self (take i evs)))"
    by (cases "evs ! i") simp
  finally show ?thesis
    using assms by (simp add: run_nth)
qed

lemma later_state_after_forward:
  assumes "i < j" and "j < length evs" and "forwarded (run self evs ! i)"
  shows "time_time (fst (evs ! i)) \<le> last_print_time (feed self (take j evs))"
proof -
  have i: "i < length evs" using assms by simp
  have "take (Suc i) (take j evs) = take (Suc i) evs"
    using assms by (simp add: min_def)
  then have "take j evs = take (Suc i) evs @ drop (Suc i) (take j evs)"
    using append_take_drop_id [of "Suc i" "take j evs"] by simp
  then have "feed self (take j evs)
               = feed (obj (run self evs ! i)) (drop (Suc i) (take j evs))"
    using feed_append [of self "take (Suc i) evs" "drop (Suc i) (take j evs)"]
    by (simp add: feed_take_Suc [OF i])
  moreover have "last_print_time (obj (run self evs ! i)) = time_time (fst (evs ! i))"
    using assms(3) by (simp add: run_nth [OF i] last_print_time_after)
  ultimately show ?thesis
    using feed_mono [of "obj (run self evs ! i)" "drop (Suc i) (take j evs)"] by simp
qed

lemma labels_of_actions:
  "labels (map (\<lambda>a. (env, PDict [(''action'', PStr a)])) as) = map (map lower_char) as"
  by (induction as) (simp_all add: labels_def appended_def dict_get_def)

lemmas eval_defs =
  on_new_com_data_def Let_def dict_get_def lower_char_def init_def maxlen_def
  deque_append_def target_words_def counts_of_def guardar_datos_en_csv_def envioporsocket_def
  count_list_replicate spec_vote_def max_count_def

section \<open>The sample handler, verified\<close>

text \<open>
  C10. A sample event whose payload is missing (\<open>None\<close>) or empty (any falsy value) leaves
  the object as it was: the window and the last emission time are unchanged, no call is
  made and nothing is raised.
\<close>

theorem falsy_sample_is_noop:
  "\<not> truthy data \<Longrightarrow>
     on_new_com_data env data self = \<lparr>obj = self, calls = [], raised = None\<rparr>"
  by (simp add: on_new_com_data_def)

theorem falsy_sample_is_noop_witness:
  "\<not> truthy (PDict []) \<and>
   on_new_com_data \<lparr>time_time = 100, log_ok = True, sock_ok = True\<rparr> (PDict [])
     (init\<lparr>command_history := replicate 40 ''left''\<rparr>)
   = \<lparr>obj = init\<lparr>command_history := replicate 40 ''left''\<rparr>, calls = [], raised = None\<rparr>"
  using falsy_sample_is_noop [of "PDict []" "\<lparr>time_time = 100, log_ok = True, sock_ok = True\<rparr>"
      "init\<lparr>command_history := replicate 40 ''left''\<rparr>"]
  by simp

text \<open>
  C3. The window never holds more than 40 labels. After any list of sample events fed to
  a fresh object it is exactly the last 40 of the labels appended so far (all of them
  while there are fewer): a label appended 41 or more appends ago is gone, and the tally
  of every later vote is taken over those last 40 only.
\<close>

theorem window_holds_last_40:
  "length (command_history (feed init evs)) \<le> 40 \<and>
   command_history (feed init evs) = drop (length (labels evs) - 40) (labels evs) \<and>
   counts_of target_words (command_history (feed init evs))
     = counts_of target_words (drop (length (labels evs) - 40) (labels evs))"
proof -
  have "command_history (feed init evs) = drop (length (labels evs) - 40) (labels evs)"
    using foldl_deque_append [of "[]" maxlen "labels evs"]
    by (simp add: feed_history init_def maxlen_def)
  then show ?thesis by simp
qed

theorem window_holds_last_40_witness:
  "command_history
     (feed init (map (\<lambda>a. (\<lparr>time_time = 1, log_ok = True, sock_ok = True\<rparr>,
                           PDict [(''action'', PStr a)]))
                  (''drop'' # replicate 40 ''left'')))
     = replicate 40 ''left'' \<and>
   counts_of target_words
     (command_history
        (feed init (map (\<lambda>a. (\<lparr>time_time = 1, log_ok = True, sock_ok = True\<rparr>,
                              PDict [(''action'', PStr a)]))
                     (''drop'' # replicate 40 ''left''))))
     = [(''drop'', 0), (''right'', 0), (''left'', 40), (''lift'', 0), (''neutral'', 0)]"
proof -
  have l: "labels (map (\<lambda>a. (\<lparr>time_time = 1, log_ok = True, sock_ok = True\<rparr>,
                           PDict [(''action'', PStr a)]))
                  (''drop'' # replicate 40 ''left''))
             = ''drop'' # replicate 40 ''left''"
    unfolding labels_of_actions by (simp add: lower_char_def)
  have h: "command_history
     (feed init (map (\<lambda>a. (\<lparr>time_time = 1, log_ok = True, sock_ok = True\<rparr>,
                           PDict [(''action'', PStr a)]))
                  (''drop'' # replicate 40 ''left'')))
     = replicate 40 ''left''"
    using window_holds_last_40
      [of "map (\<lambda>a. (\<lparr>time_time = 1, log_ok = True, sock_ok = True\<rparr>,
                           PDict [(''action'', PStr a)]))
                  (''drop'' # replicate 40 ''left'')"]
    unfolding l by simp
  show ?thesis
    unfolding h by (simp add: counts_of_def target_words_def count_list_replicate)
qed



text \<open>
  C1, as the code has it. At a gate check (at least 8 time units since the last emission)
  on a sample that carries a label: if the maximum count over the vocabulary in the
  window, the new label included, is at least 20, the log append is called with the
  winning label; if it returns, the label is sent to the socket; if that returns too,
  the last emission time becomes the current time. If either call raises, \<open>OSError\<close>
  leaves the handler, nothing further is done and the last emission time is unchanged.
  If the maximum count is at most 19, no call is made, nothing is raised and the last
  emission time is unchanged: only the window has the new label.
\<close>

theorem threshold_decision_outcome:
  assumes "d \<noteq> []"
    and "str_lower (dict_get d ''action'' (PStr [])) = Inr command"
    and "time_time env - last_print_time self \<ge> 8"
  shows "(20 \<le> max_count target_words (deque_append maxlen (command_history self) command) \<longrightarrow>
            (\<exists>w. spec_vote target_words (deque_append maxlen (command_history self) command)
                   = Some w \<and>
                 on_new_com_data env (PDict d) self
                   = \<lparr>obj = self\<lparr>command_history :=
                                    deque_append maxlen (command_history self) command,
                                  last_print_time :=
                                    (if log_ok env \<and> sock_ok env then time_time env
                                     else last_print_time self)\<rparr>,
                      calls = File_append datos_txt (w @ [CHR 0x0A])
                              # (if log_ok env then [Socket_sendall ''192.168.1.124'' 5000 w]
                                 else []),
                      raised = (if log_ok env \<and> sock_ok env then None else Some OSError)\<rparr>)) \<and>
         (max_count target_words (deque_append maxlen (command_history self) command) \<le> 19 \<longrightarrow>
            on_new_com_data env (PDict d) self
              = \<lparr>obj = self\<lparr>command_history :=
                               deque_append maxlen (command_history self) command\<rparr>,
                 calls = [], raised = None\<rparr>)"
proof -
  let ?h = "deque_append maxlen (command_history self) command"
  from vote_exists [of ?h] obtain w where
    w: "spec_vote target_words ?h = Some w"
       "py_max (counts_of target_words ?h) = Inr (w, max_count target_words ?h)"
    by blast
  show ?thesis
    using sample_outcome [OF assms(1,2) w(2), of env] assms(3) w(1) by simp
qed

theorem threshold_decision_outcome_witness:
  "[(''action'', PStr ''Left'')] \<noteq> [] \<and>
   str_lower (dict_get [(''action'', PStr ''Left'')] ''action'' (PStr [])) = Inr ''left'' \<and>
   time_time \<lparr>time_time = 100, log_ok = True, sock_ok = True\<rparr>
     - last_print_time (init\<lparr>command_history := replicate 19 ''left''\<rparr>) \<ge> 8 \<and>
   20 \<le> max_count target_words
          (deque_append maxlen (command_history (init\<lparr>command_history := replicate 19 ''left''\<rparr>))
             ''left'') \<and>
   on_new_com_data \<lparr>time_time = 100, log_ok = True, sock_ok = True\<rparr>
     (PDict [(''action'', PStr ''Left'')]) (init\<lparr>command_history := replicate 19 ''left''\<rparr>)
     = \<lparr>obj = init\<lparr>command_history := replicate 19 ''left'' @ [''left''],
                    last_print_time := 100\<rparr>,
        calls = [File_append datos_txt (''left'' @ [CHR 0x0A]),
                 Socket_sendall ''192.168.1.124'' 5000 ''left''],
        raised = None\<rparr> \<and>
   max_count target_words
     (deque_append maxlen (command_history (init\<lparr>command_history := replicate 18 ''left''\<rparr>))
        ''left'') \<le> 19 \<and>
   on_new_com_data \<lparr>time_time = 100, log_ok = True, sock_ok = True\<rparr>
     (PDict [(''action'', PStr ''Left'')]) (init\<lparr>command_history := replicate 18 ''left''\<rparr>)
     = \<lparr>obj = init\<lparr>command_history := replicate 18 ''left'' @ [''left'']\<rparr>,
        calls = [], raised = None\<rparr>"
  using threshold_decision_outcome [of "[(''action'', PStr ''Left'')]" "''left''"
      "\<lparr>time_time = 100, log_ok = True, sock_ok = True\<rparr>"
      "init\<lparr>command_history := replicate 19 ''left''\<rparr>"]
    threshold_decision_outcome [of "[(''action'', PStr ''Left'')]" "''left''"
      "\<lparr>time_time = 100, log_ok = True, sock_ok = True\<rparr>"
      "init\<lparr>command_history := replicate 18 ''left''\<rparr>"]
  by (simp add: eval_defs)

text \<open>
  The statement of C1 that every gate check with a maximum count of at least 20 is logged
  and forwarded, fails here: the log append raises at time 300 with 23 votes for
  \<open>neutral\<close>, and nothing is sent to the socket.
\<close>

theorem threshold_log_failure_counterexample:
  "time_time \<lparr>time_time = 300, log_ok = False, sock_ok = True\<rparr>
     - last_print_time (init\<lparr>command_history := replicate 22 ''neutral''\<rparr>) \<ge> 8 \<and>
   20 \<le> max_count target_words
          (command_history
             (obj (on_new_com_data \<lparr>time_time = 300, log_ok = False, sock_ok = True\<rparr>
                     (PDict [(''action'', PStr ''neutral''), (''power'', PNum 0),
                             (''time'', PNum 300)])
                     (init\<lparr>command_history := replicate 22 ''neutral''\<rparr>)))) \<and>
   Socket_sendall ''192.168.1.124'' 5000 ''neutral''
     \<notin> set (calls (on_new_com_data \<lparr>time_time = 300, log_ok = False, sock_ok = True\<rparr>
                     (PDict [(''action'', PStr ''neutral''), (''power'', PNum 0),
                             (''time'', PNum 300)])
                     (init\<lparr>command_history := replicate 22 ''neutral''\<rparr>))) \<and>
   calls (on_new_com_data \<lparr>time_time = 300, log_ok = False, sock_ok = True\<rparr>
            (PDict [(''action'', PStr ''neutral''), (''power'', PNum 0), (''time'', PNum 300)])
            (init\<lparr>command_history := replicate 22 ''neutral''\<rparr>))
     = [File_append datos_txt (''neutral'' @ [CHR 0x0A])] \<and>
   raised (on_new_com_data \<lparr>time_time = 300, log_ok = False, sock_ok = True\<rparr>
            (PDict [(''action'', PStr ''neutral''), (''power'', PNum 0), (''time'', PNum 300)])
            (init\<lparr>command_history := replicate 22 ''neutral''\<rparr>)) = Some OSError"
  by (simp add: eval_defs)

text \<open>
  C2, as the code has it. In every run of sample events, whatever their rate and whatever
  the environment: once a decision has been delivered (its log append and its send have
  both returned) by the event at position \<open>i\<close>, a later event that arrives less than 8
  time units after it makes no call at all (no log append, no forward), and a later event
  that delivers a decision arrives at least 8 time units after it. So at most one
  decision is delivered in any interval shorter than 8.
\<close>

theorem one_forward_per_interval:
  assumes "i < j" and "j < length evs" and "forwarded (run self evs ! i)"
  shows "(time_time (fst (evs ! j)) - time_time (fst (evs ! i)) < 8 \<longrightarrow>
            calls (run self evs ! j) = []) \<and>
         (forwarded (run self evs ! j) \<longrightarrow>
            time_time (fst (evs ! j)) - time_time (fst (evs ! i)) \<ge> 8)"
proof -
  have le: "time_time (fst (evs ! i)) \<le> last_print_time (feed self (take j evs))"
    using assms by (rule later_state_after_forward)
  have gate: "time_time (fst (evs ! j)) - time_time (fst (evs ! i)) \<ge> 8"
    if "calls (run self evs ! j) \<noteq> []"
  proof -
    from that have "time_time (fst (evs ! j)) - last_print_time (feed self (take j evs)) \<ge> 8"
      using calls_gate [of "fst (evs ! j)" "snd (evs ! j)" "feed self (take j evs)"]
      by (simp add: run_nth [OF assms(2)])
    with le show ?thesis by simp
  qed
  show ?thesis
  proof (cases "calls (run self evs ! j) = []")
    case True
    then show ?thesis by (simp add: forwarded_def)
  next
    case False
    from gate [OF this] show ?thesis by simp
  qed
qed

theorem one_forward_per_interval_witness:
  "(0::nat) < 1 \<and>
   1 < length [(\<lparr>time_time = 100, log_ok = True, sock_ok = True\<rparr>, PDict [(''action'', PStr ''left'')]),
               (\<lparr>time_time = 103, log_ok = True, sock_ok = True\<rparr>, PDict [(''action'', PStr ''left'')]),
               (\<lparr>time_time = 108, log_ok = True, sock_ok = True\<rparr>, PDict [(''action'', PStr ''left'')])] \<and>
   forwarded (run (init\<lparr>command_history := replicate 20 ''left''\<rparr>)
              [(\<lparr>time_time = 100, log_ok = True, sock_ok = True\<rparr>, PDict [(''action'', PStr ''left'')]),
               (\<lparr>time_time = 103, log_ok = True, sock_ok = True\<rparr>, PDict [(''action'', PStr ''left'')]),
               (\<lparr>time_time = 108, log_ok = True, sock_ok = True\<rparr>, PDict [(''action'', PStr ''left'')])] ! 0) \<and>
   (103::real) - 100 < 8 \<and>
   calls (run (init\<lparr>command_history := replicate 20 ''left''\<rparr>)
              [(\<lparr>time_time = 100, log_ok = True, sock_ok = True\<rparr>, PDict [(''action'', PStr ''left'')]),
               (\<lparr>time_time = 103, log_ok = True, sock_ok = True\<rparr>, PDict [(''action'', PStr ''left'')]),
               (\<lparr>time_time = 108, log_ok = True, sock_ok = True\<rparr>, PDict [(''action'', PStr ''left'')])] ! 1) = [] \<and>
   forwarded (run (init\<lparr>command_history := replicate 20 ''left''\<rparr>)
              [(\<lparr>time_time = 100, log_ok = True, sock_ok = True\<rparr>, PDict [(''action'', PStr ''left'')]),
               (\<lparr>time_time = 103, log_ok = True, sock_ok = True\<rparr>, PDict [(''action'', PStr ''left'')]),
               (\<lparr>time_time = 108, log_ok = True, sock_ok = True\<rparr>, PDict [(''action'', PStr ''left'')])] ! 2)"
  using one_forward_per_interval [of 0 1
      "[(\<lparr>time_time = 100, log_ok = True, sock_ok = True\<rparr>, PDict [(''action'', PStr ''left'')]),
        (\<lparr>time_time = 103, log_ok = True, sock_ok = True\<rparr>, PDict [(''action'', PStr ''left'')]),
        (\<lparr>time_time = 108, log_ok = True, sock_ok = True\<rparr>, PDict [(''action'', PStr ''left'')])]"
      "init\<lparr>command_history := replicate 20 ''left''\<rparr>"]
  by (simp add: eval_defs forwarded_def)

text \<open>
  The statement of C2 that after any qualifying decision no further decision is attempted
  within 8 time units, fails here: the send of the decision at time 50 raises, and the
  sample at time 51 is logged and sent again.
\<close>

theorem retry_within_interval_counterexample:
  "calls (run (init\<lparr>command_history := replicate 24 ''right''\<rparr>)
            [(\<lparr>time_time = 50, log_ok = True, sock_ok = False\<rparr>, PDict [(''action'', PStr ''right'')]),
             (\<lparr>time_time = 51, log_ok = True, sock_ok = True\<rparr>, PDict [(''action'', PStr ''right'')])]
          ! 0)
     = [File_append datos_txt (''right'' @ [CHR 0x0A]),
        Socket_sendall ''192.168.1.124'' 5000 ''right''] \<and>
   raised (run (init\<lparr>command_history := replicate 24 ''right''\<rparr>)
            [(\<lparr>time_time = 50, log_ok = True, sock_ok = False\<rparr>, PDict [(''action'', PStr ''right'')]),
             (\<lparr>time_time = 51, log_ok = True, sock_ok = True\<rparr>, PDict [(''action'', PStr ''right'')])]
          ! 0) = Some OSError \<and>
   time_time \<lparr>time_time = 51, log_ok = True, sock_ok = True\<rparr>
     - time_time \<lparr>time_time = 50, log_ok = True, sock_ok = False\<rparr> < 8 \<and>
   calls (run (init\<lparr>command_history := replicate 24 ''right''\<rparr>)
            [(\<lparr>time_time = 50, log_ok = True, sock_ok = False\<rparr>, PDict [(''action'', PStr ''right'')]),
             (\<lparr>time_time = 51, log_ok = True, sock_ok = True\<rparr>, PDict [(''action'', PStr ''right'')])]
          ! 1)
     = [File_append datos_txt (''right'' @ [CHR 0x0A]),
        Socket_sendall ''192.168.1.124'' 5000 ''right'']"
  by (simp add: eval_defs)

text \<open>
  C5, as the code has it. On a qualifying decision the last emission time becomes the
  current time exactly when the log append and the socket delivery have both returned.
  When the delivery fails, \<open>OSError\<close> leaves the handler and the last emission time keeps
  its value, so the gate stays open: the next sample with a qualifying majority whose log
  append returns, however soon it comes, is logged and forwarded again.
\<close>

theorem gate_advances_only_after_delivery:
  assumes "d \<noteq> []"
    and "str_lower (dict_get d ''action'' (PStr [])) = Inr command"
    and "time_time env - last_print_time self \<ge> 8"
    and "20 \<le> max_count target_words (deque_append maxlen (command_history self) command)"
  shows "last_print_time (obj (on_new_com_data env (PDict d) self))
           = (if log_ok env \<and> sock_ok env then time_time env else last_print_time self) \<and>
         raised (on_new_com_data env (PDict d) self)
           = (if log_ok env \<and> sock_ok env then None else Some OSError) \<and>
         (\<not> sock_ok env \<longrightarrow> d2 \<noteq> [] \<longrightarrow>
            str_lower (dict_get d2 ''action'' (PStr [])) = Inr command2 \<longrightarrow>
            time_time env \<le> time_time env2 \<longrightarrow>
            20 \<le> max_count target_words
                   (deque_append maxlen
                      (command_history (obj (on_new_com_data env (PDict d) self))) command2) \<longrightarrow>
            log_ok env2 \<longrightarrow>
            (\<exists>w2. spec_vote target_words
                     (deque_append maxlen
                        (command_history (obj (on_new_com_data env (PDict d) self))) command2)
                     = Some w2 \<and>
                   calls (on_new_com_data env2 (PDict d2)
                            (obj (on_new_com_data env (PDict d) self)))
                     = [File_append datos_txt (w2 @ [CHR 0x0A]),
                        Socket_sendall ''192.168.1.124'' 5000 w2]))"
proof -
  let ?h = "deque_append maxlen (command_history self) command"
  let ?out = "on_new_com_data env (PDict d) self"
  from vote_exists [of ?h] obtain w where
    w: "py_max (counts_of target_words ?h) = Inr (w, max_count target_words ?h)"
    by blast
  have out: "last_print_time (obj ?out)
           = (if log_ok env \<and> sock_ok env then time_time env else last_print_time self)"
     "raised ?out = (if log_ok env \<and> sock_ok env then None else Some OSError)"
    using sample_outcome [OF assms(1,2) w, of env] assms(3,4) by simp_all
  have again: "\<exists>w2. spec_vote target_words
                       (deque_append maxlen (command_history (obj ?out)) command2) = Some w2 \<and>
                     calls (on_new_com_data env2 (PDict d2) (obj ?out))
                       = [File_append datos_txt (w2 @ [CHR 0x0A]),
                          Socket_sendall ''192.168.1.124'' 5000 w2]"
    if "\<not> sock_ok env" and d2: "d2 \<noteq> []"
      and c2: "str_lower (dict_get d2 ''action'' (PStr [])) = Inr command2"
      and t: "time_time env \<le> time_time env2"
      and q: "20 \<le> max_count target_words
                   (deque_append maxlen (command_history (obj ?out)) command2)"
      and l2: "log_ok env2"
  proof -
    let ?h2 = "deque_append maxlen (command_history (obj ?out)) command2"
    from vote_exists [of ?h2] obtain w2 where
      w2: "spec_vote target_words ?h2 = Some w2"
          "py_max (counts_of target_words ?h2) = Inr (w2, max_count target_words ?h2)"
      by blast
    have "last_print_time (obj ?out) = last_print_time self"
      using out(1) that(1) by simp
    with assms(3) t have "time_time env2 - last_print_time (obj ?out) \<ge> 8" by simp
    with sample_outcome [OF d2 c2 w2(2), of env2] q l2 w2(1) show ?thesis by simp
  qed
  show ?thesis using out again by blast
qed

theorem gate_advances_only_after_delivery_witness:
  "[(''action'', PStr ''lift'')] \<noteq> [] \<and>
   str_lower (dict_get [(''action'', PStr ''lift'')] ''action'' (PStr [])) = Inr ''lift'' \<and>
   time_time \<lparr>time_time = 50, log_ok = True, sock_ok = False\<rparr>
     - last_print_time (init\<lparr>command_history := replicate 30 ''lift''\<rparr>) \<ge> 8 \<and>
   20 \<le> max_count target_words
          (deque_append maxlen (command_history (init\<lparr>command_history := replicate 30 ''lift''\<rparr>))
             ''lift'') \<and>
   last_print_time
     (obj (on_new_com_data \<lparr>time_time = 50, log_ok = True, sock_ok = False\<rparr>
             (PDict [(''action'', PStr ''lift'')])
             (init\<lparr>command_history := replicate 30 ''lift''\<rparr>))) = 0 \<and>
   raised (on_new_com_data \<lparr>time_time = 50, log_ok = True, sock_ok = False\<rparr>
             (PDict [(''action'', PStr ''lift'')])
             (init\<lparr>command_history := replicate 30 ''lift''\<rparr>)) = Some OSError \<and>
   \<not> sock_ok \<lparr>time_time = 50, log_ok = True, sock_ok = False\<rparr> \<and>
   time_time \<lparr>time_time = 50, log_ok = True, sock_ok = False\<rparr>
     \<le> time_time \<lparr>time_time = 51, log_ok = True, sock_ok = True\<rparr> \<and>
   20 \<le> max_count target_words
          (deque_append maxlen
             (command_history
                (obj (on_new_com_data \<lparr>time_time = 50, log_ok = True, sock_ok = False\<rparr>
                        (PDict [(''action'', PStr ''lift'')])
                        (init\<lparr>command_history := replicate 30 ''lift''\<rparr>))))
             ''lift'') \<and>
   log_ok \<lparr>time_time = 51, log_ok = True, sock_ok = True\<rparr> \<and>
   calls (on_new_com_data \<lparr>time_time = 51, log_ok = True, sock_ok = True\<rparr>
            (PDict [(''action'', PStr ''lift'')])
            (obj (on_new_com_data \<lparr>time_time = 50, log_ok = True, sock_ok = False\<rparr>
                    (PDict [(''action'', PStr ''lift'')])
                    (init\<lparr>command_history := replicate 30 ''lift''\<rparr>))))
     = [File_append datos_txt (''lift'' @ [CHR 0x0A]),
        Socket_sendall ''192.168.1.124'' 5000 ''lift'']"
  using gate_advances_only_after_delivery [of "[(''action'', PStr ''lift'')]" "''lift''"
      "\<lparr>time_time = 50, log_ok = True, sock_ok = False\<rparr>"
      "init\<lparr>command_history := replicate 30 ''lift''\<rparr>"
      "[(''action'', PStr ''lift'')]" "''lift''"
      "\<lparr>time_time = 51, log_ok = True, sock_ok = True\<rparr>"]
  by (simp add: eval_defs)

text \<open>
  The statement of C5 that the gate advances although the delivery failed, and that no
  second attempt follows within 8 time units, fails here: the delivery at time 100 fails,
  the last emission time is still 0, and the sample at time 101 is forwarded again.
\<close>

theorem forward_failure_counterexample:
  "calls (on_new_com_data \<lparr>time_time = 100, log_ok = True, sock_ok = False\<rparr>
            (PDict [(''action'', PStr ''left''), (''power'', PNum 1), (''time'', PNum 100)])
            (init\<lparr>command_history := replicate 20 ''left''\<rparr>))
     = [File_append datos_txt (''left'' @ [CHR 0x0A]),
        Socket_sendall ''192.168.1.124'' 5000 ''left''] \<and>
   raised (on_new_com_data \<lparr>time_time = 100, log_ok = True, sock_ok = False\<rparr>
            (PDict [(''action'', PStr ''left''), (''power'', PNum 1), (''time'', PNum 100)])
            (init\<lparr>command_history := replicate 20 ''left''\<rparr>)) = Some OSError \<and>
   last_print_time
     (obj (on_new_com_data \<lparr>time_time = 100, log_ok = True, sock_ok = False\<rparr>
             (PDict [(''action'', PStr ''left''), (''power'', PNum 1), (''time'', PNum 100)])
             (init\<lparr>command_history := replicate 20 ''left''\<rparr>))) \<noteq> 100 \<and>
   calls (on_new_com_data \<lparr>time_time = 101, log_ok = True, sock_ok = True\<rparr>
            (PDict [(''action'', PStr ''left''), (''power'', PNum 1), (''time'', PNum 101)])
            (obj (on_new_com_data \<lparr>time_time = 100, log_ok = True, sock_ok = False\<rparr>
                    (PDict [(''action'', PStr ''left''), (''power'', PNum 1), (''time'', PNum 100)])
                    (init\<lparr>command_history := replicate 20 ''left''\<rparr>))))
     = [File_append datos_txt (''left'' @ [CHR 0x0A]),
        Socket_sendall ''192.168.1.124'' 5000 ''left'']"
  by (simp add: eval_defs)

text \<open>
  C6, as the code has it. When the log append fails on a qualifying decision, \<open>OSError\<close>
  leaves the handler right there: the log append is the only call made, the label is not
  sent to the socket, and the last emission time is unchanged; the window keeps the new
  label.
\<close>

theorem log_failure_aborts_decision:
  assumes "d \<noteq> []"
    and "str_lower (dict_get d ''action'' (PStr [])) = Inr command"
    and "time_time env - last_print_time self \<ge> 8"
    and "20 \<le> max_count target_words (deque_append maxlen (command_history self) command)"
    and "\<not> log_ok env"
  shows "\<exists>w. spec_vote target_words (deque_append maxlen (command_history self) command) = Some w \<and>
           on_new_com_data env (PDict d) self
             = \<lparr>obj = self\<lparr>command_history :=
                              deque_append maxlen (command_history self) command\<rparr>,
                calls = [File_append datos_txt (w @ [CHR 0x0A])],
                raised = Some OSError\<rparr>"
proof -
  let ?h = "deque_append maxlen (command_history self) command"
  from vote_exists [of ?h] obtain w where
    w: "spec_vote target_words ?h = Some w"
       "py_max (counts_of target_words ?h) = Inr (w, max_count target_words ?h)"
    by blast
  show ?thesis
    using sample_outcome [OF assms(1,2) w(2), of env] assms(3,4,5) w(1) by simp
qed

theorem log_failure_aborts_decision_witness:
  "[(''action'', PStr ''DROP'')] \<noteq> [] \<and>
   str_lower (dict_get [(''action'', PStr ''DROP'')] ''action'' (PStr [])) = Inr ''drop'' \<and>
   time_time \<lparr>time_time = 9, log_ok = False, sock_ok = True\<rparr>
     - last_print_time (init\<lparr>command_history := replicate 25 ''drop''\<rparr>) \<ge> 8 \<and>
   20 \<le> max_count target_words
          (deque_append maxlen (command_history (init\<lparr>command_history := replicate 25 ''drop''\<rparr>))
             ''drop'') \<and>
   \<not> log_ok \<lparr>time_time = 9, log_ok = False, sock_ok = True\<rparr> \<and>
   on_new_com_data \<lparr>time_time = 9, log_ok = False, sock_ok = True\<rparr>
     (PDict [(''action'', PStr ''DROP'')]) (init\<lparr>command_history := replicate 25 ''drop''\<rparr>)
     = \<lparr>obj = init\<lparr>command_history := replicate 25 ''drop'' @ [''drop'']\<rparr>,
        calls = [File_append datos_txt (''drop'' @ [CHR 0x0A])],
        raised = Some OSError\<rparr>"
  using log_failure_aborts_decision [of "[(''action'', PStr ''DROP'')]" "''drop''"
      "\<lparr>time_time = 9, log_ok = False, sock_ok = True\<rparr>"
      "init\<lparr>command_history := replicate 25 ''drop''\<rparr>"]
  by (simp add: eval_defs)

text \<open>
  The statement of C6 that the forward and the gate advance still occur when the log
  write fails, fails here: at time 200 the only call is the log append, and the last
  emission time is not 200.
\<close>

theorem log_failure_counterexample:
  "calls (on_new_com_data \<lparr>time_time = 200, log_ok = False, sock_ok = True\<rparr>
            (PDict [(''action'', PStr ''right''), (''power'', PNum 1), (''time'', PNum 200)])
            (init\<lparr>command_history := replicate 39 ''right''\<rparr>))
     = [File_append datos_txt (''right'' @ [CHR 0x0A])] \<and>
   raised (on_new_com_data \<lparr>time_time = 200, log_ok = False, sock_ok = True\<rparr>
            (PDict [(''action'', PStr ''right''), (''power'', PNum 1), (''time'', PNum 200)])
            (init\<lparr>command_history := replicate 39 ''right''\<rparr>)) = Some OSError \<and>
   last_print_time
     (obj (on_new_com_data \<lparr>time_time = 200, log_ok = False, sock_ok = True\<rparr>
             (PDict [(''action'', PStr ''right''), (''power'', PNum 1), (''time'', PNum 200)])
             (init\<lparr>command_history := replicate 39 ''right''\<rparr>))) \<noteq> 200"
  by (simp add: eval_defs)

section \<open>The lifecycle handlers, verified\<close>

text \<open>
  C9. \<open>start\<close> with an empty profile name raises \<open>ValueError\<close> at once: no call reaches the
  Cortex client (in particular no \<open>open\<close>) and the object is untouched, so the name is not
  recorded. With a non-empty name nothing is raised, the name is recorded and the session
  is opened.
\<close>

theorem start_empty_name_fails_locally:
  "start [] headsetId self = \<lparr>obj = self, calls = [], raised = Some ValueError\<rparr> \<and>
   (name \<noteq> [] \<longrightarrow>
      raised (start name headsetId self) = None \<and>
      profile_name (obj (start name headsetId self)) = Some name \<and>
      calls (start name headsetId self)
        = [Cortex_set_wanted_profile name]
          @ (if headsetId \<noteq> [] then [Cortex_set_wanted_headset headsetId] else [])
          @ [Cortex_open])"
  by (simp add: start_def)

theorem start_empty_name_fails_locally_witness:
  "start [] [] init = \<lparr>obj = init, calls = [], raised = Some ValueError\<rparr> \<and>
   ''Dario2023P2'' \<noteq> [] \<and>
   raised (start ''Dario2023P2'' [] init) = None \<and>
   profile_name (obj (start ''Dario2023P2'' [] init)) = Some ''Dario2023P2'' \<and>
   calls (start ''Dario2023P2'' [] init)
     = [Cortex_set_wanted_profile ''Dario2023P2'', Cortex_open]"
  using start_empty_name_fails_locally [of "[]" init "''Dario2023P2''"]
  by simp

text \<open>
  C7. On a received catalog (the profile name having been recorded by \<open>start\<close>), the
  handler makes exactly one call: the load path (\<open>get_current_profile\<close>) if and only if
  the wanted name is in the catalog, the create request if and only if it is not.
\<close>

theorem catalog_load_xor_create:
  assumes "profile_name self = Some name"
  shows "(Cortex_get_current_profile \<in> set (calls (on_query_profile_done (Some names) self))
            \<longleftrightarrow> name \<in> set names) \<and>
         (Cortex_setup_profile name ''create''
            \<in> set (calls (on_query_profile_done (Some names) self))
            \<longleftrightarrow> name \<notin> set names) \<and>
         length (calls (on_query_profile_done (Some names) self)) = 1 \<and>
         raised (on_query_profile_done (Some names) self) = None"
  using assms by (simp add: on_query_profile_done_def Let_def)

theorem catalog_load_xor_create_witness:
  "profile_name (obj (start ''p2'' [] init)) = Some ''p2'' \<and>
   calls (on_query_profile_done (Some [''p1'', ''p2'']) (obj (start ''p2'' [] init)))
     = [Cortex_get_current_profile] \<and>
   calls (on_query_profile_done (Some [''p1'']) (obj (start ''p2'' [] init)))
     = [Cortex_setup_profile ''p2'' ''create'']"
proof -
  have p: "profile_name (obj (start ''p2'' [] init)) = Some ''p2''"
    by (simp add: start_def)
  show ?thesis
    using catalog_load_xor_create [OF p, of "[''p1'', ''p2'']"]
      catalog_load_xor_create [OF p, of "[''p1'']"]
    by (simp add: on_query_profile_done_def start_def Let_def)
qed

text \<open>
  C8. On a sensitivity event the handler dispatches on the payload's shape: a list (the
  result of a read, a sequence of numbers) makes it set the sensitivity to the configured
  vector \<open>[5, 5, 7, 7]\<close>; anything else (the acknowledgement of a write) makes it save the
  profile. Either way exactly one call is made.
\<close>

theorem sensitivity_dispatch_on_shape:
  assumes "profile_name self = Some name"
  shows "calls (on_mc_action_sensitivity_done (PList (map PNum values)) self)
           = [Cortex_set_mental_command_action_sensitivity name [5, 5, 7, 7]] \<and>
         (\<not> isinstance_list ack \<longrightarrow>
            calls (on_mc_action_sensitivity_done ack self)
              = [Cortex_setup_profile name ''save'']) \<and>
         length (calls (on_mc_action_sensitivity_done data self)) = 1 \<and>
         raised (on_mc_action_sensitivity_done data self) = None"
  using assms
  by (simp add: on_mc_action_sensitivity_done_def set_sensitivity_def save_profile_def)

theorem sensitivity_dispatch_on_shape_witness:
  "profile_name (obj (start ''p2'' [] init)) = Some ''p2'' \<and>
   calls (on_mc_action_sensitivity_done (PList (map PNum [7, 8, 3, 6]))
            (obj (start ''p2'' [] init)))
     = [Cortex_set_mental_command_action_sensitivity ''p2'' [5, 5, 7, 7]] \<and>
   \<not> isinstance_list (PStr ''success'') \<and>
   calls (on_mc_action_sensitivity_done (PStr ''success'') (obj (start ''p2'' [] init)))
     = [Cortex_setup_profile ''p2'' ''save'']"
proof -
  have p: "profile_name (obj (start ''p2'' [] init)) = Some ''p2''"
    by (simp add: start_def)
  show ?thesis
    using sensitivity_dispatch_on_shape [OF p, of "[7, 8, 3, 6]" "PStr ''success''"]
    by (simp add: start_def)
qed

end
